theory Spec2Isabelle
  imports Complex_Main
begin

section \<open>Data model of the route-drawing screen (DrawRoad.tsx)\<close>

text \<open>
  Coordinates are JavaScript numbers that the screen only stores and hands on to the map
  service; no arithmetic is done on them, so they are modelled as reals.
\<close>

record point =
  latitude :: real
  longitude :: real

record spot =
  point :: point
  title :: string
  content :: string

datatype DrawMode = Road | Spot

text \<open>
  A place returned by the map service's keyword search. The screen reads the fields
  \<open>id\<close>, \<open>place_name\<close>, \<open>road_address_name\<close>, \<open>x\<close> and \<open>y\<close>.
\<close>

record place =
  place_id :: string
  place_name :: string
  road_address_name :: string
  place_x :: real
  place_y :: real

text \<open>
  One entry of the result of \<open>searchAddress\<close>. Each of \<open>road_address\<close>, \<open>address\<close> and
  their fields can be null or undefined, which is \<open>None\<close> here.
\<close>

record road_address_info =
  ra_address_name :: "string option"

record address_info =
  address_name :: "string option"
  region_3depth_name :: "string option"

record geocode_item =
  road_address :: "road_address_info option"
  address :: "address_info option"

text \<open>The outcome of an awaited call of the map service.\<close>

datatype 'a promise = Resolved 'a | Rejected

text \<open>
  The map service's two lookups, as the screen awaits them. They are external to the
  screen, so they are parameters of the model. The map is taken to be mounted: the
  optional chains \<open>mapRef.current?.mapServiceRef.current?\<close> reach the service.
\<close>

record map_service =
  searchAddress :: "real \<Rightarrow> real \<Rightarrow> geocode_item list promise"
  searchPlaces :: "string \<Rightarrow> place list promise"

text \<open>The commands the screen sends to the map service, in the order it sends them.\<close>

datatype map_cmd =
    DrawLine real real
  | RemoveAllLines
  | RemoveLastLine
  | AddMarker real real
  | RemoveMarker nat
  | MoveTo real real
  | RemoveCurrentLocationMarker

text \<open>A timer of the JavaScript runtime: its id, the time at which it is due, and the
  text its callback closes over.\<close>

type_synonym timer = "nat \<times> nat \<times> string"

text \<open>
  The state of the screen: the two lists of the store it selects (\<open>routes\<close>, \<open>spots\<close>), its
  own React state, the debounce reference, and the runtime around it: the clock in
  milliseconds, the timer queue, the lookups awaited by \<open>handkleClickMap\<close>
  (\<open>geocode_pending\<close>) and by the debounce callback (\<open>search_inflight\<close>), the calls of
  \<open>searchPlaces\<close> so far (\<open>search_log\<close>), the \<open>requestGetPlaces\<close> actions dispatched
  (\<open>place_requests\<close>) and the commands sent to the map (\<open>map_log\<close>).
\<close>

record session =
  routes :: "point list"
  spots :: "spot list"
  mode :: DrawMode
  searchQuery :: string
  isFocus :: bool
  places :: "place list"
  addresses :: "string list"
  selectedSpot :: "nat option"
  searchQueryDebounceRef :: "nat option"
  now :: nat
  timers :: "timer list"
  next_timer_id :: nat
  geocode_pending :: "point list"
  search_inflight :: "string list"
  search_log :: "string list"
  place_requests :: "point list"
  map_log :: "map_cmd list"

definition init :: session where
  "init = \<lparr> routes = [], spots = [], mode = Road, searchQuery = [], isFocus = False,
            places = [], addresses = [], selectedSpot = None,
            searchQueryDebounceRef = None, now = 0, timers = [], next_timer_id = 0,
            geocode_pending = [], search_inflight = [], search_log = [],
            place_requests = [], map_log = [] \<rparr>"


section \<open>The store's reducers\<close>

text \<open>
  Modelled from the spec: the reducer of \<open>addRoute\<close> (stores/actions/editActions and its
  reducer are not part of the sources at hand). The spec: a tap appends a RoutePoint.
\<close>

definition addRoute :: "point \<Rightarrow> point list \<Rightarrow> point list" where
  "addRoute p rs = rs @ [p]"

text \<open>
  Modelled from the spec: the reducer of \<open>removeRoute\<close>, absent from the sources. The spec:
  removes the last RoutePoint; nothing to remove when the route is empty.
\<close>

definition removeRoute :: "point list \<Rightarrow> point list" where
  "removeRoute rs = butlast rs"

text \<open>
  Modelled from the spec: the reducer of \<open>clearRoute\<close>, absent from the sources. The spec:
  empties RoutePoints.
\<close>

definition clearRoute :: "point list \<Rightarrow> point list" where
  "clearRoute rs = []"

text \<open>
  Modelled from the spec: the reducer of \<open>addSpot\<close>, absent from the sources. The spec:
  appends a Spot at the coordinate with empty title and content.
\<close>

definition addSpot :: "point \<Rightarrow> spot list \<Rightarrow> spot list" where
  "addSpot p ss = ss @ [\<lparr> point = p, title = [], content = [] \<rparr>]"

text \<open>
  Modelled from the spec: the reducer of \<open>removeSpot\<close>, absent from the sources. The spec:
  removes the Spot at the index; an index out of range removes nothing.
\<close>

definition removeSpot :: "nat \<Rightarrow> spot list \<Rightarrow> spot list" where
  "removeSpot index ss = take index ss @ drop (Suc index) ss"

text \<open>
  Modelled from the spec: the reducers of \<open>changeSpotTitle\<close> and \<open>changeSpotContent\<close>,
  absent from the sources. The spec: an in-place update of the field.
\<close>

definition changeSpotTitle :: "nat \<Rightarrow> string \<Rightarrow> spot list \<Rightarrow> spot list" where
  "changeSpotTitle index t ss =
     (if index < length ss then ss[index := (ss ! index)\<lparr>title := t\<rparr>] else ss)"

definition changeSpotContent :: "nat \<Rightarrow> string \<Rightarrow> spot list \<Rightarrow> spot list" where
  "changeSpotContent index c ss =
     (if index < length ss then ss[index := (ss ! index)\<lparr>content := c\<rparr>] else ss)"


section \<open>The handlers\<close>

text \<open>
  The effect on \<open>routes\<close>: it runs after every render in which the route list has changed;
  with exactly one point it requests the places around that point and removes the marker of
  the current location.
\<close>

definition routes_effect :: "session \<Rightarrow> session" where
  "routes_effect s =
     (if length (routes s) = 1
      then s\<lparr> place_requests := place_requests s @ [routes s ! 0],
              map_log := map_log s @ [RemoveCurrentLocationMarker] \<rparr>
      else s)"

definition handleClickMode :: "DrawMode \<Rightarrow> session \<Rightarrow> session" where
  "handleClickMode selectedMode s = s\<lparr> mode := selectedMode \<rparr>"

text \<open>\<open>clearTimeout\<close>: a timer not yet fired leaves the queue; any other id does nothing.\<close>

definition clearTimeout :: "nat \<Rightarrow> timer list \<Rightarrow> timer list" where
  "clearTimeout i ts = filter (\<lambda>t. fst t \<noteq> i) ts"

definition handleChangeSearchQuery :: "string \<Rightarrow> session \<Rightarrow> session" where
  "handleChangeSearchQuery v s =
     (let s1 = s\<lparr> searchQuery := v \<rparr>;
          s2 = (case searchQueryDebounceRef s1 of
                  None \<Rightarrow> s1
                | Some i \<Rightarrow> s1\<lparr> timers := clearTimeout i (timers s1) \<rparr>)
      in s2\<lparr> timers := timers s2 @ [(next_timer_id s2, now s2 + 500, v)],
              searchQueryDebounceRef := Some (next_timer_id s2),
              next_timer_id := Suc (next_timer_id s2) \<rparr>)"

text \<open>The callback of the debounce timer, up to its \<open>await\<close>: lodash's \<open>isEmpty\<close> of a
  string is true exactly for the empty string.\<close>

definition debounce_callback :: "string \<Rightarrow> session \<Rightarrow> session" where
  "debounce_callback v s =
     (if v \<noteq> []
      then s\<lparr> search_log := search_log s @ [v],
              search_inflight := search_inflight s @ [v] \<rparr>
      else s)"

text \<open>The rest of that callback: the \<open>k\<close>-th search in flight settles.\<close>

definition searchPlaces_settle :: "map_service \<Rightarrow> nat \<Rightarrow> session \<Rightarrow> session" where
  "searchPlaces_settle svc k s =
     (if k < length (search_inflight s)
      then (let v = search_inflight s ! k;
                s1 = s\<lparr> search_inflight :=
                          take k (search_inflight s) @ drop (Suc k) (search_inflight s) \<rparr>
            in case searchPlaces svc v of
                 Resolved searchedPlaces \<Rightarrow> s1\<lparr> places := searchedPlaces \<rparr>
               | Rejected \<Rightarrow> s1)
      else s)"

text \<open>Time passes: every timer that is due fires, in the order of the queue.\<close>

definition elapse :: "nat \<Rightarrow> session \<Rightarrow> session" where
  "elapse d s =
     (let t = now s + d;
          due = filter (\<lambda>tm. fst (snd tm) \<le> t) (timers s);
          rest = filter (\<lambda>tm. \<not> fst (snd tm) \<le> t) (timers s)
      in foldl (\<lambda>s' tm. debounce_callback (snd (snd tm)) s')
               (s\<lparr> now := t, timers := rest \<rparr>) due)"

text \<open>JavaScript's \<open>a ?? b\<close> and the truthiness of an optional string.\<close>

definition nullish :: "'a option \<Rightarrow> 'a option \<Rightarrow> 'a option" where
  "nullish a b = (case a of None \<Rightarrow> b | Some v \<Rightarrow> Some v)"

definition truthy :: "string option \<Rightarrow> bool" where
  "truthy r = (case r of None \<Rightarrow> False | Some v \<Rightarrow> v \<noteq> [])"

text \<open>The display string that \<open>handkleClickMap\<close> builds from a resolved lookup.\<close>

definition compose_address :: "geocode_item list \<Rightarrow> string" where
  "compose_address result =
     (let first = (case result of [] \<Rightarrow> None | r # _ \<Rightarrow> Some r);
          addr = (case nullish
                         (Option.bind (Option.bind first road_address) ra_address_name)
                         (nullish (Option.bind (Option.bind first address) address_name)
                                  (Some []))
                  of None \<Rightarrow> [] | Some a \<Rightarrow> a);
          region = Option.bind (Option.bind first address) region_3depth_name
      in addr @ (if truthy region then '' ('' @ the region @ '')'' else []))"

definition handkleClickMap :: "real \<Rightarrow> real \<Rightarrow> session \<Rightarrow> session" where
  "handkleClickMap lat lon s =
     (let p = \<lparr> latitude = lat, longitude = lon \<rparr>
      in if mode s = Road
         then routes_effect
                (s\<lparr> routes := addRoute p (routes s),
                    map_log := map_log s @ [DrawLine lat lon],
                    geocode_pending := geocode_pending s @ [p] \<rparr>)
         else s\<lparr> spots := addSpot p (spots s),
                 map_log := map_log s @ [AddMarker lat lon] \<rparr>)"

text \<open>The rest of \<open>handkleClickMap\<close> after its \<open>await\<close>: the \<open>k\<close>-th lookup in flight
  settles. A rejected lookup lands in the empty \<open>catch\<close>.\<close>

definition searchAddress_settle :: "map_service \<Rightarrow> nat \<Rightarrow> session \<Rightarrow> session" where
  "searchAddress_settle svc k s =
     (if k < length (geocode_pending s)
      then (let p = geocode_pending s ! k;
                s1 = s\<lparr> geocode_pending :=
                          take k (geocode_pending s) @ drop (Suc k) (geocode_pending s) \<rparr>
            in case searchAddress svc (latitude p) (longitude p) of
                 Resolved result \<Rightarrow> s1\<lparr> addresses := addresses s1 @ [compose_address result] \<rparr>
               | Rejected \<Rightarrow> s1)
      else s)"

definition handleClickClearRoad :: "session \<Rightarrow> session" where
  "handleClickClearRoad s =
     routes_effect
       (s\<lparr> routes := clearRoute (routes s),
           addresses := [],
           map_log := map_log s @ [RemoveAllLines] \<rparr>)"

text \<open>\<open>prev.slice(0, prev.length - 1)\<close> is the list without its last entry, and the empty
  list for the empty list.\<close>

definition handleClickRevertRoad :: "session \<Rightarrow> session" where
  "handleClickRevertRoad s =
     routes_effect
       (s\<lparr> routes := removeRoute (routes s),
           addresses := butlast (addresses s),
           map_log := map_log s @ [RemoveLastLine] \<rparr>)"

text \<open>\<open>handleClickSpot\<close> is the click handler of a rendered spot, so its index is that
  of a spot in the list.\<close>

definition handleClickSpot :: "nat \<Rightarrow> session \<Rightarrow> session" where
  "handleClickSpot index s =
     (if index < length (spots s)
      then s\<lparr> map_log := map_log s @
                 [MoveTo (latitude (point (spots s ! index)))
                         (longitude (point (spots s ! index)))],
              selectedSpot := Some index \<rparr>
      else s)"

definition handleRemoveSpot :: "nat \<Rightarrow> session \<Rightarrow> session" where
  "handleRemoveSpot index s =
     (let s2 = (case selectedSpot s of
                  None \<Rightarrow> s
                | Some sel \<Rightarrow>
                    (let s1 = (if index = sel then s\<lparr> selectedSpot := None \<rparr> else s)
                     in if index < sel
                        then s1\<lparr> selectedSpot :=
                                   map_option (\<lambda>prev. prev - 1) (selectedSpot s1) \<rparr>
                        else s1))
      in s2\<lparr> spots := removeSpot index (spots s2),
              map_log := map_log s2 @ [RemoveMarker index] \<rparr>)"

definition handleChangeSpotTitle :: "nat \<Rightarrow> string \<Rightarrow> session \<Rightarrow> session" where
  "handleChangeSpotTitle index v s = s\<lparr> spots := changeSpotTitle index v (spots s) \<rparr>"

definition handleChangeSpotContent :: "nat \<Rightarrow> string \<Rightarrow> session \<Rightarrow> session" where
  "handleChangeSpotContent index v s = s\<lparr> spots := changeSpotContent index v (spots s) \<rparr>"


section \<open>Events and runs\<close>

datatype event =
    ClickMode DrawMode
  | ChangeSearchQuery string
  | Elapse nat
  | SearchPlacesDone nat
  | ClickMap real real
  | SearchAddressDone nat
  | ClickClearRoad
  | ClickRevertRoad
  | ClickSpot nat
  | RemoveSpot nat
  | ChangeSpotTitle nat string
  | ChangeSpotContent nat string

fun step :: "map_service \<Rightarrow> session \<Rightarrow> event \<Rightarrow> session" where
  "step svc s (ClickMode m) = handleClickMode m s"
| "step svc s (ChangeSearchQuery v) = handleChangeSearchQuery v s"
| "step svc s (Elapse d) = elapse d s"
| "step svc s (SearchPlacesDone k) = searchPlaces_settle svc k s"
| "step svc s (ClickMap lat lon) = handkleClickMap lat lon s"
| "step svc s (SearchAddressDone k) = searchAddress_settle svc k s"
| "step svc s ClickClearRoad = handleClickClearRoad s"
| "step svc s ClickRevertRoad = handleClickRevertRoad s"
| "step svc s (ClickSpot i) = handleClickSpot i s"
| "step svc s (RemoveSpot i) = handleRemoveSpot i s"
| "step svc s (ChangeSpotTitle i v) = handleChangeSpotTitle i v s"
| "step svc s (ChangeSpotContent i v) = handleChangeSpotContent i v s"

definition run :: "map_service \<Rightarrow> session \<Rightarrow> event list \<Rightarrow> session" where
  "run svc s es = foldl (step svc) s es"


section \<open>Fixtures and predicates on runs\<close>

text \<open>A map service for the concrete runs: it resolves the lookup of latitude 37.5 with an
  address, the lookup of latitude 0 with an empty result, the search for \<open>cafe\<close> with one
  place and the search for \<open>nowhere\<close> with no place, and rejects every other call.\<close>

definition demo_item :: geocode_item where
  "demo_item = \<lparr> road_address = Some \<lparr> ra_address_name = Some ''Teheran-ro 1'' \<rparr>,
                 address = Some \<lparr> address_name = Some ''Yeoksam-dong 736'',
                                  region_3depth_name = Some ''Gangnam-gu'' \<rparr> \<rparr>"

definition demo_place :: place where
  "demo_place = \<lparr> place_id = ''1'', place_name = ''Cafe'', road_address_name = ''Teheran-ro 1'',
                  place_x = 127.03, place_y = 37.5 \<rparr>"

definition demo_service :: map_service where
  "demo_service =
     \<lparr> searchAddress = (\<lambda>lat lon. if lat = 37.5 then Resolved [demo_item]
                                  else if lat = 0 then Resolved [] else Rejected),
       searchPlaces = (\<lambda>v. if v = ''cafe'' then Resolved [demo_place]
                            else if v = ''nowhere'' then Resolved [] else Rejected) \<rparr>"

text \<open>The timer queue holds at most one timer, the one the debounce reference names.\<close>

definition wf_timers :: "session \<Rightarrow> bool" where
  "wf_timers s =
     (case timers s of
        [] \<Rightarrow> True
      | [t] \<Rightarrow> searchQueryDebounceRef s = Some (fst t)
      | _ \<Rightarrow> False)"










text \<open>
  The events that dispatch a change of the route list to the store.
\<close>

definition route_mutation :: "event \<Rightarrow> session \<Rightarrow> bool" where
  "route_mutation e s =
     (case e of
        ClickMap lat lon \<Rightarrow> mode s = Road
      | ClickClearRoad \<Rightarrow> True
      | ClickRevertRoad \<Rightarrow> True
      | _ \<Rightarrow> False)"



definition three_spots :: session where
  "three_spots = run demo_service init
     [ClickMode Spot, ClickMap 1 1, ClickMap 2 2, ClickMap 3 3, ClickSpot 1]"


section \<open>Basic facts\<close>

lemma run_Nil [simp]: "run svc s [] = s"
  by (simp add: run_def)

lemma run_Cons [simp]: "run svc s (e # es) = run svc (step svc s e) es"
  by (simp add: run_def)

lemma compose_demo: "compose_address [demo_item] = ''Teheran-ro 1 (Gangnam-gu)''"
  by (simp add: compose_address_def demo_item_def nullish_def truthy_def)

lemmas handler_defs =
  handleClickMode_def handleChangeSearchQuery_def elapse_def searchPlaces_settle_def
  handkleClickMap_def searchAddress_settle_def handleClickClearRoad_def
  handleClickRevertRoad_def handleClickSpot_def handleRemoveSpot_def
  handleChangeSpotTitle_def handleChangeSpotContent_def routes_effect_def
  debounce_callback_def clearTimeout_def Let_def

lemmas reducer_defs = addRoute_def removeRoute_def clearRoute_def addSpot_def removeSpot_def
  changeSpotTitle_def changeSpotContent_def

lemma routes_effect_fields [simp]:
  "routes (routes_effect s) = routes s"
  "addresses (routes_effect s) = addresses s"
  "geocode_pending (routes_effect s) = geocode_pending s"
  by (simp_all add: routes_effect_def)

lemma routes_effect_one:
  "length (routes t) = 1 \<Longrightarrow>
     place_requests (routes_effect t) = place_requests t @ [routes t ! 0]
     \<and> map_log (routes_effect t) = map_log t @ [RemoveCurrentLocationMarker]"
  by (simp add: routes_effect_def)

lemma fire_fields [simp]:
  "routes (foldl (\<lambda>s' tm. debounce_callback (snd (snd tm)) s') t ts) = routes t"
  "addresses (foldl (\<lambda>s' tm. debounce_callback (snd (snd tm)) s') t ts) = addresses t"
  "geocode_pending (foldl (\<lambda>s' tm. debounce_callback (snd (snd tm)) s') t ts) = geocode_pending t"
  "place_requests (foldl (\<lambda>s' tm. debounce_callback (snd (snd tm)) s') t ts) = place_requests t"
  "map_log (foldl (\<lambda>s' tm. debounce_callback (snd (snd tm)) s') t ts) = map_log t"
  by (induction ts arbitrary: t) (simp_all add: debounce_callback_def)

lemma elapse_fields [simp]:
  "routes (elapse d s) = routes s"
  "addresses (elapse d s) = addresses s"
  "geocode_pending (elapse d s) = geocode_pending s"
  "place_requests (elapse d s) = place_requests s"
  "map_log (elapse d s) = map_log s"
  by (simp_all add: elapse_def Let_def)

lemma routes_unchanged:
  "routes (handleClickMode m s) = routes s"
  "routes (handleChangeSearchQuery v s) = routes s"
  "routes (searchPlaces_settle svc k s) = routes s"
  "routes (searchAddress_settle svc k s) = routes s"
  "routes (handleClickSpot i s) = routes s"
  "routes (handleRemoveSpot i s) = routes s"
  "routes (handleChangeSpotTitle i v s) = routes s"
  "routes (handleChangeSpotContent i v s) = routes s"
  by (simp_all add: handler_defs split: option.splits promise.splits)










section \<open>The debounce timer\<close>

lemma change_timers:
  "wf_timers s \<Longrightarrow> timers (handleChangeSearchQuery v s) = [(next_timer_id s, now s + 500, v)]"
  by (auto simp: wf_timers_def handleChangeSearchQuery_def clearTimeout_def Let_def
      split: list.splits option.splits)

lemma change_fields:
  "searchQuery (handleChangeSearchQuery v s) = v"
  "searchQueryDebounceRef (handleChangeSearchQuery v s) = Some (next_timer_id s)"
  "now (handleChangeSearchQuery v s) = now s"
  "search_log (handleChangeSearchQuery v s) = search_log s"
  "search_inflight (handleChangeSearchQuery v s) = search_inflight s"
  "places (handleChangeSearchQuery v s) = places s"
  by (simp_all add: handleChangeSearchQuery_def Let_def split: option.splits)

lemma wf_change: "wf_timers s \<Longrightarrow> wf_timers (handleChangeSearchQuery v s)"
  by (simp add: wf_timers_def[of "handleChangeSearchQuery v s"] change_timers change_fields)

lemma elapse_early:
  "timers s = [(i, dl, v)] \<Longrightarrow> now s + d < dl \<Longrightarrow> elapse d s = s\<lparr> now := now s + d \<rparr>"
  by (simp add: elapse_def Let_def)

lemma elapse_due:
  "timers s = [(i, dl, v)] \<Longrightarrow> dl \<le> now s + d \<Longrightarrow>
   elapse d s = debounce_callback v (s\<lparr> now := now s + d, timers := [] \<rparr>)"
  by (simp add: elapse_def Let_def)

lemma elapse_none:
  "timers s = [] \<Longrightarrow> elapse d s = s\<lparr> now := now s + d \<rparr>"
  by (simp add: elapse_def Let_def)

lemma wf_elapse: "wf_timers s \<Longrightarrow> wf_timers (elapse d s)"
  by (auto simp: wf_timers_def elapse_def Let_def debounce_callback_def split: list.splits)

lemma wf_step: "wf_timers s \<Longrightarrow> wf_timers (step svc s e)"
proof (cases e)
  case (ChangeSearchQuery v)
  then show "wf_timers s \<Longrightarrow> ?thesis" by (simp add: wf_change)
next
  case (Elapse d)
  then show "wf_timers s \<Longrightarrow> ?thesis" by (simp add: wf_elapse)
qed (auto simp: wf_timers_def handler_defs split: list.splits promise.splits option.splits)

lemma wf_run: "wf_timers s \<Longrightarrow> wf_timers (run svc s es)"
  by (induction es arbitrary: s) (simp_all add: wf_step)

lemma wf_init: "wf_timers init"
  by (simp add: wf_timers_def init_def)


section \<open>Addresses against route points: three invariants\<close>















section \<open>The claims\<close>

subsection \<open>Stale reverse geocoding (C1)\<close>

text \<open>
  C1, counterexample. A tap, a revert, and then the late answer of the tap's lookup: the
  route is empty and had no address, and the answer is appended all the same.
\<close>

theorem stale_geocode_counterexample:
  "routes (run demo_service init [ClickMap 37.5 127.03, ClickRevertRoad]) = []
   \<and> addresses (run demo_service init [ClickMap 37.5 127.03, ClickRevertRoad]) = []
   \<and> addresses (run demo_service init [ClickMap 37.5 127.03, ClickRevertRoad, SearchAddressDone 0])
       = [''Teheran-ro 1 (Gangnam-gu)'']"
  by (simp add: init_def handler_defs addRoute_def removeRoute_def demo_service_def compose_demo)

text \<open>
  C1, as amended. A reverse geocoding that resolves is always applied: whichever lookup in
  flight settles, and whatever the route list holds by then, its display string is appended
  at the end of the addresses. The route list is not consulted and not changed.
\<close>

theorem resolved_geocode_always_applied:
  assumes "k < length (geocode_pending s)"
    and "searchAddress svc (latitude (geocode_pending s ! k)) (longitude (geocode_pending s ! k))
           = Resolved result"
  shows "addresses (searchAddress_settle svc k s) = addresses s @ [compose_address result]
       \<and> routes (searchAddress_settle svc k s) = routes s"
  using assms by (simp add: searchAddress_settle_def Let_def)

theorem resolved_geocode_always_applied_witness:
  "0 < length (geocode_pending (run demo_service init [ClickMap 37.5 127.03, ClickRevertRoad]))
   \<and> routes (run demo_service init [ClickMap 37.5 127.03, ClickRevertRoad]) = []
   \<and> addresses (searchAddress_settle demo_service 0
        (run demo_service init [ClickMap 37.5 127.03, ClickRevertRoad]))
       = [''Teheran-ro 1 (Gangnam-gu)'']"
proof -
  define s where "s = run demo_service init [ClickMap 37.5 127.03, ClickRevertRoad]"
  have p: "geocode_pending s = [\<lparr> latitude = 37.5, longitude = 127.03 \<rparr>]"
    and a: "addresses s = []" and r: "routes s = []"
    unfolding s_def
    by (simp_all add: init_def handler_defs addRoute_def removeRoute_def)
  have h1: "0 < length (geocode_pending s)" using p by simp
  have h2: "searchAddress demo_service (latitude (geocode_pending s ! 0))
              (longitude (geocode_pending s ! 0)) = Resolved [demo_item]"
    using p by (simp add: demo_service_def)
  have "addresses (searchAddress_settle demo_service 0 s) = [''Teheran-ro 1 (Gangnam-gu)'']"
    using resolved_geocode_always_applied[OF h1 h2] a by (simp add: compose_demo)
  with h1 r show ?thesis unfolding s_def by simp
qed

subsection \<open>Lengths and alignment of addresses and route points (C2)\<close>






subsection \<open>Failed lookups (C3)\<close>

text \<open>
  C3, counterexample. A rejected reverse geocoding leaves one route point and no address,
  not an empty placeholder; a rejected search leaves the places of the search before it,
  not an empty list.
\<close>

theorem failed_lookup_counterexample:
  "searchAddress demo_service 10 20 = Rejected
   \<and> routes (run demo_service init [ClickMap 10 20, SearchAddressDone 0])
       = [\<lparr> latitude = 10, longitude = 20 \<rparr>]
   \<and> geocode_pending (run demo_service init [ClickMap 10 20, SearchAddressDone 0]) = []
   \<and> addresses (run demo_service init [ClickMap 10 20, SearchAddressDone 0]) = []
   \<and> searchPlaces demo_service ''park'' = Rejected
   \<and> places (run demo_service init
        [ChangeSearchQuery ''cafe'', Elapse 500, SearchPlacesDone 0,
         ChangeSearchQuery ''park'', Elapse 500, SearchPlacesDone 0]) = [demo_place]"
  by (simp add: init_def handler_defs reducer_defs demo_service_def)

text \<open>
  C3, as amended. A lookup that fails never stops the session: a rejected reverse geocoding
  only leaves the lookups in flight and changes nothing else (no placeholder is appended),
  a reverse geocoding that resolves with an empty result appends the empty string, a
  rejected search only leaves the searches in flight, the places staying as they were, and
  a search that resolves with an empty result empties the places.
\<close>

theorem failed_lookups_are_dropped:
  "(k < length (geocode_pending s)
      \<and> searchAddress svc (latitude (geocode_pending s ! k)) (longitude (geocode_pending s ! k))
          = Rejected
    \<longrightarrow> searchAddress_settle svc k s =
          s\<lparr> geocode_pending := take k (geocode_pending s) @ drop (Suc k) (geocode_pending s) \<rparr>)
   \<and> (k < length (geocode_pending s)
      \<and> searchAddress svc (latitude (geocode_pending s ! k)) (longitude (geocode_pending s ! k))
          = Resolved []
    \<longrightarrow> addresses (searchAddress_settle svc k s) = addresses s @ [[]])
   \<and> (j < length (search_inflight s) \<and> searchPlaces svc (search_inflight s ! j) = Rejected
    \<longrightarrow> searchPlaces_settle svc j s =
          s\<lparr> search_inflight := take j (search_inflight s) @ drop (Suc j) (search_inflight s) \<rparr>)
   \<and> (j < length (search_inflight s) \<and> searchPlaces svc (search_inflight s ! j) = Resolved []
    \<longrightarrow> places (searchPlaces_settle svc j s) = [])"
  by (simp add: searchAddress_settle_def searchPlaces_settle_def Let_def compose_address_def
      nullish_def truthy_def)

theorem failed_lookups_are_dropped_witness:
  "searchAddress demo_service 10 20 = Rejected
   \<and> geocode_pending (run demo_service init [ClickMap 10 20])
       = [\<lparr> latitude = 10, longitude = 20 \<rparr>]
   \<and> addresses (searchAddress_settle demo_service 0 (run demo_service init [ClickMap 10 20]))
       = []
   \<and> searchAddress demo_service 0 0 = Resolved []
   \<and> addresses (searchAddress_settle demo_service 0 (run demo_service init [ClickMap 0 0]))
       = [[]]
   \<and> searchPlaces demo_service ''park'' = Rejected
   \<and> places (searchPlaces_settle demo_service 0
        (run demo_service init
           [ChangeSearchQuery ''cafe'', Elapse 500, SearchPlacesDone 0,
            ChangeSearchQuery ''park'', Elapse 500])) = [demo_place]
   \<and> searchPlaces demo_service ''nowhere'' = Resolved []
   \<and> places (run demo_service init
           [ChangeSearchQuery ''cafe'', Elapse 500, SearchPlacesDone 0,
            ChangeSearchQuery ''nowhere'', Elapse 500]) = [demo_place]
   \<and> places (searchPlaces_settle demo_service 0
        (run demo_service init
           [ChangeSearchQuery ''cafe'', Elapse 500, SearchPlacesDone 0,
            ChangeSearchQuery ''nowhere'', Elapse 500])) = []"
proof -
  define s1 where "s1 = run demo_service init [ClickMap 10 20]"
  define s2 where "s2 = run demo_service init [ClickMap 0 0]"
  define s3 where "s3 = run demo_service init
           [ChangeSearchQuery ''cafe'', Elapse 500, SearchPlacesDone 0,
            ChangeSearchQuery ''park'', Elapse 500]"
  define s4 where "s4 = run demo_service init
           [ChangeSearchQuery ''cafe'', Elapse 500, SearchPlacesDone 0,
            ChangeSearchQuery ''nowhere'', Elapse 500]"
  have p1: "geocode_pending s1 = [\<lparr> latitude = 10, longitude = 20 \<rparr>]"
    and a1: "addresses s1 = []"
    unfolding s1_def by (simp_all add: init_def handler_defs reducer_defs)
  have p2: "geocode_pending s2 = [\<lparr> latitude = 0, longitude = 0 \<rparr>]"
    and a2: "addresses s2 = []"
    unfolding s2_def by (simp_all add: init_def handler_defs reducer_defs)
  have p3: "search_inflight s3 = [''park'']" and a3: "places s3 = [demo_place]"
    unfolding s3_def by (simp_all add: init_def handler_defs demo_service_def)
  have p4: "search_inflight s4 = [''nowhere'']" and a4: "places s4 = [demo_place]"
    unfolding s4_def by (simp_all add: init_def handler_defs demo_service_def)
  have r1: "searchAddress demo_service 10 20 = Rejected"
    and r2: "searchAddress demo_service 0 0 = Resolved []"
    and r3: "searchPlaces demo_service ''park'' = Rejected"
    and r4: "searchPlaces demo_service ''nowhere'' = Resolved []"
    by (simp_all add: demo_service_def)
  have c1: "addresses (searchAddress_settle demo_service 0 s1) = []"
    using failed_lookups_are_dropped[of 0 s1 demo_service 0] p1 a1 r1 by simp
  have c2: "addresses (searchAddress_settle demo_service 0 s2) = [[]]"
    using failed_lookups_are_dropped[of 0 s2 demo_service 0] p2 a2 r2 by simp
  have c3: "places (searchPlaces_settle demo_service 0 s3) = [demo_place]"
    using failed_lookups_are_dropped[of 0 s3 demo_service 0] p3 a3 r3 by simp
  have c4: "places (searchPlaces_settle demo_service 0 s4) = []"
    using failed_lookups_are_dropped[of 0 s4 demo_service 0] p4 r4 by simp
  from r1 p1 c1 r2 c2 r3 c3 r4 a4 c4 show ?thesis
    unfolding s1_def s2_def s3_def s4_def by simp
qed

subsection \<open>A later change of the search text (C4)\<close>

text \<open>
  C4, counterexample. The first search is in flight when the text changes; its answer is
  applied to the places after the change. With the same text typed twice, two searches are
  in flight at once.
\<close>

theorem superseded_search_counterexample:
  "search_inflight (run demo_service init
      [ChangeSearchQuery ''cafe'', Elapse 500, ChangeSearchQuery ''park'']) = [''cafe'']
   \<and> searchQuery (run demo_service init
      [ChangeSearchQuery ''cafe'', Elapse 500, ChangeSearchQuery ''park'', SearchPlacesDone 0])
       = ''park''
   \<and> places (run demo_service init
      [ChangeSearchQuery ''cafe'', Elapse 500, ChangeSearchQuery ''park'', SearchPlacesDone 0])
       = [demo_place]
   \<and> search_inflight (run demo_service init
      [ChangeSearchQuery ''cafe'', Elapse 500, ChangeSearchQuery ''cafe'', Elapse 500])
       = [''cafe'', ''cafe'']"
  by (simp add: init_def handler_defs demo_service_def)

text \<open>
  C4, as amended. A change of the search text cancels the timer of the change before it, if
  that timer has not fired: the only timer left is the new one, and the only search the
  timers can still start is the one for the new text. A search that is already in flight is
  not cancelled: when it resolves after the change, its result becomes the places.
\<close>

theorem later_change_cancels_timer_only:
  assumes wf: "wf_timers s"
  shows "timers (handleChangeSearchQuery v s) = [(next_timer_id s, now s + 500, v)]
       \<and> search_log (elapse d (handleChangeSearchQuery v s))
           = search_log s @ (if 500 \<le> d \<and> v \<noteq> [] then [v] else [])
       \<and> search_inflight (handleChangeSearchQuery v s) = search_inflight s
       \<and> (k < length (search_inflight s)
            \<and> searchPlaces svc (search_inflight s ! k) = Resolved searchedPlaces
          \<longrightarrow> places (searchPlaces_settle svc k (handleChangeSearchQuery v s)) = searchedPlaces)"
proof -
  let ?s = "handleChangeSearchQuery v s"
  have t: "timers ?s = [(next_timer_id s, now s + 500, v)]"
    using wf by (rule change_timers)
  have l: "search_log (elapse d ?s) = search_log s @ (if 500 \<le> d \<and> v \<noteq> [] then [v] else [])"
  proof (cases "500 \<le> d")
    case True
    then have "elapse d ?s = debounce_callback v (?s\<lparr> now := now ?s + d, timers := [] \<rparr>)"
      using t by (intro elapse_due[of _ "next_timer_id s" "now s + 500" v]) (simp_all add: change_fields)
    with True show ?thesis by (simp add: debounce_callback_def change_fields)
  next
    case False
    then have "elapse d ?s = ?s\<lparr> now := now ?s + d \<rparr>"
      using t by (intro elapse_early[of _ "next_timer_id s" "now s + 500" v]) (simp_all add: change_fields)
    with False show ?thesis by (simp add: change_fields)
  qed
  have p: "places (searchPlaces_settle svc k ?s) = searchedPlaces"
    if "k < length (search_inflight s)"
      and "searchPlaces svc (search_inflight s ! k) = Resolved searchedPlaces"
    using that by (simp add: searchPlaces_settle_def Let_def change_fields)
  from t l p show ?thesis by (simp add: change_fields)
qed

theorem later_change_cancels_timer_only_witness:
  "wf_timers (run demo_service init [ChangeSearchQuery ''cafe'', Elapse 500])
   \<and> search_inflight (run demo_service init [ChangeSearchQuery ''cafe'', Elapse 500]) = [''cafe'']
   \<and> searchPlaces demo_service ''cafe'' = Resolved [demo_place]
   \<and> places (searchPlaces_settle demo_service 0
        (handleChangeSearchQuery ''park''
           (run demo_service init [ChangeSearchQuery ''cafe'', Elapse 500]))) = [demo_place]"
proof -
  define s where "s = run demo_service init [ChangeSearchQuery ''cafe'', Elapse 500]"
  have w: "wf_timers s" unfolding s_def by (intro wf_run wf_init)
  have i: "search_inflight s = [''cafe'']"
    unfolding s_def by (simp add: init_def handler_defs)
  have r: "searchPlaces demo_service ''cafe'' = Resolved [demo_place]"
    by (simp add: demo_service_def)
  have "places (searchPlaces_settle demo_service 0 (handleChangeSearchQuery ''park'' s))
          = [demo_place]"
    using later_change_cancels_timer_only[OF w, of "''park''" 0 0 demo_service "[demo_place]"] i r
    by simp
  with w i r show ?thesis unfolding s_def by simp
qed

subsection \<open>Three changes within the delay (C5)\<close>

text \<open>
  C5. Three changes of the search text, each less than 500 ms after the one before, followed
  by 500 ms of silence, call \<open>searchPlaces\<close> exactly once, with the text of the last
  change (which is not empty), and leave no timer pending; every change sets the query text
  at once.
\<close>

theorem debounce_three_calls:
  assumes wf: "wf_timers s" and d1: "d1 < 500" and d2: "d2 < 500" and d3: "500 \<le> d3"
    and t3: "t3 \<noteq> []"
  shows "search_log (run svc s [ChangeSearchQuery t1, Elapse d1, ChangeSearchQuery t2, Elapse d2,
                                ChangeSearchQuery t3, Elapse d3]) = search_log s @ [t3]
       \<and> timers (run svc s [ChangeSearchQuery t1, Elapse d1, ChangeSearchQuery t2, Elapse d2,
                                ChangeSearchQuery t3, Elapse d3]) = []
       \<and> searchQuery (run svc s [ChangeSearchQuery t1]) = t1
       \<and> searchQuery (run svc s [ChangeSearchQuery t1, Elapse d1, ChangeSearchQuery t2]) = t2
       \<and> searchQuery (run svc s [ChangeSearchQuery t1, Elapse d1, ChangeSearchQuery t2, Elapse d2,
                                ChangeSearchQuery t3]) = t3"
proof -
  define a1 where "a1 = handleChangeSearchQuery t1 s"
  define b1 where "b1 = elapse d1 a1"
  define a2 where "a2 = handleChangeSearchQuery t2 b1"
  define b2 where "b2 = elapse d2 a2"
  define a3 where "a3 = handleChangeSearchQuery t3 b2"
  define b3 where "b3 = elapse d3 a3"
  have ta1: "timers a1 = [(next_timer_id s, now s + 500, t1)]"
    unfolding a1_def using wf by (rule change_timers)
  have la1: "search_log a1 = search_log s" and na1: "now a1 = now s"
    unfolding a1_def by (simp_all add: change_fields)
  have eb1: "b1 = a1\<lparr> now := now a1 + d1 \<rparr>"
    unfolding b1_def using ta1 d1 na1 by (intro elapse_early[of _ "next_timer_id s" "now s + 500" t1]) simp_all
  have wb1: "wf_timers b1"
    unfolding b1_def a1_def using wf by (intro wf_elapse wf_change)
  have lb1: "search_log b1 = search_log s" using eb1 la1 by simp
  have ta2: "timers a2 = [(next_timer_id b1, now b1 + 500, t2)]"
    unfolding a2_def using wb1 by (rule change_timers)
  have la2: "search_log a2 = search_log s" and na2: "now a2 = now b1"
    unfolding a2_def using lb1 by (simp_all add: change_fields)
  have eb2: "b2 = a2\<lparr> now := now a2 + d2 \<rparr>"
    unfolding b2_def using ta2 d2 na2 by (intro elapse_early[of _ "next_timer_id b1" "now b1 + 500" t2]) simp_all
  have wb2: "wf_timers b2"
    unfolding b2_def a2_def using wb1 by (intro wf_elapse wf_change)
  have lb2: "search_log b2 = search_log s" using eb2 la2 by simp
  have ta3: "timers a3 = [(next_timer_id b2, now b2 + 500, t3)]"
    unfolding a3_def using wb2 by (rule change_timers)
  have la3: "search_log a3 = search_log s" and na3: "now a3 = now b2"
    unfolding a3_def using lb2 by (simp_all add: change_fields)
  have eb3: "b3 = debounce_callback t3 (a3\<lparr> now := now a3 + d3, timers := [] \<rparr>)"
    unfolding b3_def using ta3 d3 na3 by (intro elapse_due[of _ "next_timer_id b2" "now b2 + 500" t3]) simp_all
  have "search_log b3 = search_log s @ [t3]" "timers b3 = []"
    using eb3 la3 t3 by (simp_all add: debounce_callback_def)
  moreover have "searchQuery a1 = t1" "searchQuery a2 = t2" "searchQuery a3 = t3"
    unfolding a1_def a2_def a3_def by (simp_all add: change_fields)
  ultimately show ?thesis
    by (simp add: a1_def b1_def a2_def b2_def a3_def b3_def)
qed

theorem debounce_three_calls_witness:
  "wf_timers init \<and> (100::nat) < 500 \<and> (200::nat) < 500 \<and> (500::nat) \<le> 500 \<and> ''cafe'' \<noteq> []
   \<and> search_log (run demo_service init
        [ChangeSearchQuery ''c'', Elapse 100, ChangeSearchQuery ''ca'', Elapse 200,
         ChangeSearchQuery ''cafe'', Elapse 500]) = [''cafe'']"
proof -
  have h: "wf_timers init" by (rule wf_init)
  have c: "search_log (run demo_service init
        [ChangeSearchQuery ''c'', Elapse 100, ChangeSearchQuery ''ca'', Elapse 200,
         ChangeSearchQuery ''cafe'', Elapse 500]) = [''cafe'']"
    using debounce_three_calls[OF h, of 100 200 500 "''cafe''" demo_service "''c''" "''ca''"]
    by (simp add: init_def)
  from h c show ?thesis by simp
qed

subsection \<open>Revert on an empty route (C6)\<close>

text \<open>
  C6, counterexample. Revert on the empty route of a fresh session sends \<open>removeLastLine\<close>
  to the map.
\<close>

theorem revert_empty_counterexample:
  "routes init = [] \<and> map_log init = []
   \<and> map_log (handleClickRevertRoad init) = [RemoveLastLine]"
  by (simp add: init_def handler_defs removeRoute_def)

text \<open>
  C6, as amended. Revert on an empty route leaves the route empty and the spots, the mode,
  the search and the selection as they were; it drops the last address if there is one,
  and it sends \<open>removeLastLine\<close> to the map.
\<close>

theorem revert_on_empty_route:
  assumes "routes s = []"
  shows "handleClickRevertRoad s =
           s\<lparr> addresses := butlast (addresses s), map_log := map_log s @ [RemoveLastLine] \<rparr>"
  using assms by (cases s) (simp add: handler_defs removeRoute_def)

theorem revert_on_empty_route_witness:
  "routes init = []
   \<and> handleClickRevertRoad init = init\<lparr> map_log := [RemoveLastLine] \<rparr>"
proof -
  have h: "routes init = []" by (simp add: init_def)
  have "handleClickRevertRoad init = init\<lparr> map_log := [RemoveLastLine] \<rparr>"
    using revert_on_empty_route[OF h] by (simp add: init_def)
  with h show ?thesis by simp
qed

subsection \<open>An empty search text (C7)\<close>

text \<open>
  C7, counterexample. A change to the empty text after a search has filled the places
  leaves the places as they are.
\<close>

theorem empty_query_counterexample:
  "places (run demo_service init [ChangeSearchQuery ''cafe'', Elapse 500, SearchPlacesDone 0])
     = [demo_place]
   \<and> places (run demo_service init
       [ChangeSearchQuery ''cafe'', Elapse 500, SearchPlacesDone 0, ChangeSearchQuery []])
     = [demo_place]"
  by (simp add: init_def handler_defs demo_service_def)

text \<open>
  C7, as amended. A change to the empty text sets the query text to the empty string and
  replaces any pending timer by a new one, whose callback does nothing: whatever time
  passes, no search is started. The places are not cleared, they stay as they were.
\<close>

theorem empty_query_change:
  assumes wf: "wf_timers s"
  shows "searchQuery (handleChangeSearchQuery [] s) = []
       \<and> timers (handleChangeSearchQuery [] s) = [(next_timer_id s, now s + 500, [])]
       \<and> places (handleChangeSearchQuery [] s) = places s
       \<and> search_log (elapse d (handleChangeSearchQuery [] s)) = search_log s
       \<and> search_inflight (elapse d (handleChangeSearchQuery [] s)) = search_inflight s
       \<and> places (elapse d (handleChangeSearchQuery [] s)) = places s"
proof -
  let ?s = "handleChangeSearchQuery [] s"
  have t: "timers ?s = [(next_timer_id s, now s + 500, [])]"
    using wf by (rule change_timers)
  have e: "elapse d ?s = ?s\<lparr> now := now ?s + d \<rparr> \<or> elapse d ?s = ?s\<lparr> now := now ?s + d, timers := [] \<rparr>"
  proof (cases "500 \<le> d")
    case True
    then have "elapse d ?s = debounce_callback [] (?s\<lparr> now := now ?s + d, timers := [] \<rparr>)"
      using t by (intro elapse_due[of _ "next_timer_id s" "now s + 500"]) (simp_all add: change_fields)
    then show ?thesis by (simp add: debounce_callback_def)
  next
    case False
    then have "elapse d ?s = ?s\<lparr> now := now ?s + d \<rparr>"
      using t by (intro elapse_early[of _ "next_timer_id s" "now s + 500" "[]"]) (simp_all add: change_fields)
    then show ?thesis by simp
  qed
  from e have "search_log (elapse d ?s) = search_log s"
    "search_inflight (elapse d ?s) = search_inflight s" "places (elapse d ?s) = places s"
    by (auto simp: change_fields)
  with t show ?thesis by (simp add: change_fields)
qed

theorem empty_query_change_witness:
  "wf_timers (run demo_service init [ChangeSearchQuery ''cafe'', Elapse 500, SearchPlacesDone 0])
   \<and> places (handleChangeSearchQuery []
        (run demo_service init [ChangeSearchQuery ''cafe'', Elapse 500, SearchPlacesDone 0]))
       = [demo_place]
   \<and> search_log (elapse 500 (handleChangeSearchQuery []
        (run demo_service init [ChangeSearchQuery ''cafe'', Elapse 500, SearchPlacesDone 0])))
       = [''cafe'']"
proof -
  define s where
    "s = run demo_service init [ChangeSearchQuery ''cafe'', Elapse 500, SearchPlacesDone 0]"
  have w: "wf_timers s" unfolding s_def by (intro wf_run wf_init)
  have p: "places s = [demo_place]" and l: "search_log s = [''cafe'']"
    unfolding s_def by (simp_all add: init_def handler_defs demo_service_def)
  have "places (handleChangeSearchQuery [] s) = [demo_place]"
    "search_log (elapse 500 (handleChangeSearchQuery [] s)) = [''cafe'']"
    using empty_query_change[OF w, of 500] p l by simp_all
  with w show ?thesis unfolding s_def by simp
qed

subsection \<open>The first route point (C8)\<close>

text \<open>
  C8. Whenever one event takes the route list from empty to one point, the event is a tap
  in road mode, exactly one request for the places around that point is dispatched, the map
  is sent \<open>drawLine\<close> and then \<open>removeCurrentLocationMarker\<close>, and the text search (query,
  places, timer, searches in flight and started) is not touched, whatever its state.
\<close>

theorem first_route_point_effect:
  assumes empty: "routes s = []" and one: "length (routes (step svc s e)) = 1"
  shows "\<exists>lat lon. e = ClickMap lat lon \<and> mode s = Road
           \<and> routes (step svc s e) = [\<lparr> latitude = lat, longitude = lon \<rparr>]
           \<and> place_requests (step svc s e)
               = place_requests s @ [\<lparr> latitude = lat, longitude = lon \<rparr>]
           \<and> map_log (step svc s e)
               = map_log s @ [DrawLine lat lon, RemoveCurrentLocationMarker]
           \<and> searchQuery (step svc s e) = searchQuery s
           \<and> places (step svc s e) = places s
           \<and> timers (step svc s e) = timers s
           \<and> search_inflight (step svc s e) = search_inflight s
           \<and> search_log (step svc s e) = search_log s"
proof (cases e)
  case (ClickMap lat lon)
  show ?thesis
  proof (cases "mode s = Road")
    case True
    with ClickMap empty show ?thesis
      by (simp add: handkleClickMap_def routes_effect_def addRoute_def Let_def)
  next
    case False
    with ClickMap have "routes (step svc s e) = routes s"
      by (simp add: handkleClickMap_def Let_def)
    with empty one show ?thesis by simp
  qed
next
  case ClickClearRoad
  then have "routes (step svc s e) = []"
    by (simp add: handleClickClearRoad_def clearRoute_def)
  with one show ?thesis by simp
next
  case ClickRevertRoad
  with empty have "routes (step svc s e) = []"
    by (simp add: handleClickRevertRoad_def removeRoute_def)
  with one show ?thesis by simp
qed (use empty one in \<open>simp_all add: routes_unchanged\<close>)

theorem first_route_point_effect_witness:
  "routes init = []
   \<and> length (routes (step demo_service init (ClickMap 37.5 127.03))) = 1
   \<and> place_requests (step demo_service init (ClickMap 37.5 127.03))
       = [\<lparr> latitude = 37.5, longitude = 127.03 \<rparr>]
   \<and> map_log (step demo_service init (ClickMap 37.5 127.03))
       = [DrawLine 37.5 127.03, RemoveCurrentLocationMarker]
   \<and> search_log (step demo_service init (ClickMap 37.5 127.03)) = []"
proof -
  let ?e = "ClickMap 37.5 127.03"
  have h1: "routes init = []" by (simp add: init_def)
  have h2: "length (routes (step demo_service init ?e)) = 1"
    by (simp add: init_def handkleClickMap_def addRoute_def Let_def)
  from first_route_point_effect[OF h1 h2] obtain lat lon where
    e: "?e = ClickMap lat lon"
    and c: "place_requests (step demo_service init ?e)
              = place_requests init @ [\<lparr> latitude = lat, longitude = lon \<rparr>]"
       "map_log (step demo_service init ?e)
              = map_log init @ [DrawLine lat lon, RemoveCurrentLocationMarker]"
       "search_log (step demo_service init ?e) = search_log init"
    by blast
  from e have "lat = 37.5" "lon = 127.03" by simp_all
  with c have "place_requests (step demo_service init ?e) = [\<lparr> latitude = 37.5, longitude = 127.03 \<rparr>]"
    "map_log (step demo_service init ?e) = [DrawLine 37.5 127.03, RemoveCurrentLocationMarker]"
    "search_log (step demo_service init ?e) = []"
    by (simp_all add: init_def)
  with h1 h2 show ?thesis by simp
qed

subsection \<open>Removing a spot (C9)\<close>

text \<open>
  C9. Removing the spot at index \<open>k\<close>: a selection of \<open>k\<close> is cleared, a selection
  \<open>j > k\<close> becomes \<open>j - 1\<close>, a selection \<open>j < k\<close> and no selection stay; the spot at
  index \<open>k\<close> leaves the list, and the map is sent \<open>removeMarker k\<close>.
\<close>

theorem remove_spot_selection:
  "(selectedSpot s = Some k \<longrightarrow> selectedSpot (handleRemoveSpot k s) = None)
   \<and> (selectedSpot s = Some j \<and> k < j \<longrightarrow> selectedSpot (handleRemoveSpot k s) = Some (j - 1))
   \<and> (selectedSpot s = Some j \<and> j < k \<longrightarrow> selectedSpot (handleRemoveSpot k s) = Some j)
   \<and> (selectedSpot s = None \<longrightarrow> selectedSpot (handleRemoveSpot k s) = None)
   \<and> spots (handleRemoveSpot k s) = take k (spots s) @ drop (Suc k) (spots s)
   \<and> map_log (handleRemoveSpot k s) = map_log s @ [RemoveMarker k]"
  by (auto simp: handleRemoveSpot_def removeSpot_def Let_def split: option.splits)

lemma three_spots_state:
  "selectedSpot three_spots = Some 1" "length (spots three_spots) = 3"
  by (simp_all add: three_spots_def init_def handler_defs reducer_defs)

theorem remove_spot_selection_witness:
  "selectedSpot three_spots = Some 1
   \<and> selectedSpot (handleRemoveSpot 1 three_spots) = None
   \<and> selectedSpot (handleRemoveSpot 0 three_spots) = Some 0
   \<and> selectedSpot (handleRemoveSpot 2 three_spots) = Some 1
   \<and> length (spots (handleRemoveSpot 1 three_spots)) = 2"
proof -
  have s: "selectedSpot three_spots = Some 1" by (rule three_spots_state)
  have a: "selectedSpot (handleRemoveSpot 1 three_spots) = None"
    using remove_spot_selection[of three_spots 1 1] s by simp
  have b: "selectedSpot (handleRemoveSpot 0 three_spots) = Some 0"
    using remove_spot_selection[of three_spots 0 1] s by simp
  have c: "selectedSpot (handleRemoveSpot 2 three_spots) = Some 1"
    using remove_spot_selection[of three_spots 2 1] s by simp
  have d: "length (spots (handleRemoveSpot 1 three_spots)) = 2"
    using remove_spot_selection[of three_spots 1 1] three_spots_state(2) by simp
  from s a b c d show ?thesis by simp
qed

subsection \<open>The effect on the route list is keyed on its length (C10)\<close>

text \<open>
  C10. The effect depends on the length of the route list, not on how it was reached: after
  every event that changes the route list and leaves exactly one point, the places around
  that point are requested and \<open>removeCurrentLocationMarker\<close> is the last command sent. In
  particular a revert from two points to one requests the places around point 0 again.
\<close>

theorem effect_keyed_on_route_length:
  "(route_mutation e s \<and> length (routes (step svc s e)) = 1
      \<longrightarrow> place_requests (step svc s e) = place_requests s @ [routes (step svc s e) ! 0]
          \<and> last (map_log (step svc s e)) = RemoveCurrentLocationMarker)
   \<and> (length (routes s) = 2
      \<longrightarrow> routes (handleClickRevertRoad s) = [routes s ! 0]
          \<and> place_requests (handleClickRevertRoad s) = place_requests s @ [routes s ! 0]
          \<and> map_log (handleClickRevertRoad s)
              = map_log s @ [RemoveLastLine, RemoveCurrentLocationMarker])"
proof (intro conjI impI)
  assume a: "route_mutation e s \<and> length (routes (step svc s e)) = 1"
  then have m: "route_mutation e s" and one: "length (routes (step svc s e)) = 1" by simp_all
  have "place_requests (step svc s e) = place_requests s @ [routes (step svc s e) ! 0]
      \<and> last (map_log (step svc s e)) = RemoveCurrentLocationMarker"
  proof (cases e)
    case (ClickMap lat lon)
    define t where "t = s\<lparr> routes := addRoute \<lparr> latitude = lat, longitude = lon \<rparr> (routes s),
                             map_log := map_log s @ [DrawLine lat lon],
                             geocode_pending := geocode_pending s
                                                @ [\<lparr> latitude = lat, longitude = lon \<rparr>] \<rparr>"
    from m ClickMap have st: "step svc s e = routes_effect t"
      by (simp add: route_mutation_def handkleClickMap_def Let_def t_def)
    with one have "length (routes t) = 1" by simp
    then show ?thesis unfolding st by (simp add: routes_effect_one) (simp add: t_def)
  next
    case ClickClearRoad
    with one show ?thesis by (simp add: handleClickClearRoad_def clearRoute_def)
  next
    case ClickRevertRoad
    define t where "t = s\<lparr> routes := removeRoute (routes s), addresses := butlast (addresses s),
                             map_log := map_log s @ [RemoveLastLine] \<rparr>"
    from ClickRevertRoad have st: "step svc s e = routes_effect t"
      by (simp add: handleClickRevertRoad_def t_def)
    with one have "length (routes t) = 1" by simp
    then show ?thesis unfolding st by (simp add: routes_effect_one) (simp add: t_def)
  qed (use m in \<open>simp_all add: route_mutation_def\<close>)
  then show "place_requests (step svc s e) = place_requests s @ [routes (step svc s e) ! 0]"
    and "last (map_log (step svc s e)) = RemoveCurrentLocationMarker" by simp_all
next
  assume two: "length (routes s) = 2"
  then obtain p q where r: "routes s = [p, q]"
    by (cases "routes s"; cases "tl (routes s)") auto
  then show "routes (handleClickRevertRoad s) = [routes s ! 0]"
    and "place_requests (handleClickRevertRoad s) = place_requests s @ [routes s ! 0]"
    and "map_log (handleClickRevertRoad s) = map_log s @ [RemoveLastLine, RemoveCurrentLocationMarker]"
    by (simp_all add: handleClickRevertRoad_def routes_effect_def removeRoute_def)
qed

theorem effect_keyed_on_route_length_witness:
  "length (routes (run demo_service init [ClickMap 37.5 127.03, ClickMap 37.5 127.04])) = 2
   \<and> route_mutation ClickRevertRoad (run demo_service init [ClickMap 37.5 127.03, ClickMap 37.5 127.04])
   \<and> place_requests (run demo_service init [ClickMap 37.5 127.03, ClickMap 37.5 127.04])
       = [\<lparr> latitude = 37.5, longitude = 127.03 \<rparr>]
   \<and> place_requests (handleClickRevertRoad
        (run demo_service init [ClickMap 37.5 127.03, ClickMap 37.5 127.04]))
       = [\<lparr> latitude = 37.5, longitude = 127.03 \<rparr>, \<lparr> latitude = 37.5, longitude = 127.03 \<rparr>]"
proof -
  define s where "s = run demo_service init [ClickMap 37.5 127.03, ClickMap 37.5 127.04]"
  have r: "routes s = [\<lparr> latitude = 37.5, longitude = 127.03 \<rparr>, \<lparr> latitude = 37.5, longitude = 127.04 \<rparr>]"
    and p: "place_requests s = [\<lparr> latitude = 37.5, longitude = 127.03 \<rparr>]"
    unfolding s_def by (simp_all add: init_def handler_defs reducer_defs)
  have h: "length (routes s) = 2" using r by simp
  have m: "route_mutation ClickRevertRoad s" by (simp add: route_mutation_def)
  have "place_requests (handleClickRevertRoad s) = place_requests s @ [routes s ! 0]"
    using effect_keyed_on_route_length[of ClickRevertRoad s demo_service] h by blast
  with r p have "place_requests (handleClickRevertRoad s)
       = [\<lparr> latitude = 37.5, longitude = 127.03 \<rparr>, \<lparr> latitude = 37.5, longitude = 127.03 \<rparr>]"
    by simp
  with h m p show ?thesis unfolding s_def by simp
qed

end
